theory Spec2Isabelle
  imports Main "HOL-Library.Multiset" "HOL-Library.Word"
begin

section \<open>The todo application of app.js\<close>

text \<open>
  The script keeps one module-level array \<open>tasks\<close> of \<open>Task\<close> objects and a string
  \<open>currentFilter\<close>; every operation mutates them and then calls the platform:
  \<open>localStorage.setItem\<close>, the DOM (\<open>taskList.innerHTML\<close>), the live region
  (\<open>announce\<close>) and \<open>console.error\<close>. The model passes the state explicitly and records
  each platform call in a trace, so that "no persistence call" and "no announcement" are
  statements about the trace.

  What the platform decides during one event is a parameter of the operation (\<open>env\<close>):
  the reading of \<open>Date.now()\<close>, the value of \<open>crypto.randomUUID()\<close>, and whether
  \<open>localStorage.setItem\<close> throws (quota exceeded).
\<close>

subsection \<open>Strings\<close>

text \<open>
  A JavaScript string is a sequence of 16-bit code units. The text of a task is such a
  string, since \<open>trim\<close> looks at its code units. \<open>ascii\<close> is the JavaScript string
  of an Isabelle string literal, one code unit per character.

  An id is only ever compared with another id and with the empty string, and the
  storage key, the filter names, the property names and the announcements are
  constants of the script: these are kept as Isabelle strings.
\<close>

type_synonym jsstring = "16 word list"

definition ascii :: "string \<Rightarrow> jsstring" where
  "ascii s = map of_char s"

subsection \<open>Tasks\<close>

text \<open>
  \<open>class Task\<close> (lines 22-29). The fields \<open>id\<close> and \<open>text\<close> are named \<open>task_id\<close> and
  \<open>task_text\<close> here. The operations of the script are modelled on tasks whose fields
  have the types the script itself gives them: string, string, boolean, integer. What
  the operations do to a task that \<open>loadTasks\<close> built from other values (see
  \<open>loaded_task\<close> below) is outside the model.
\<close>

record task =
  task_id :: string
  task_text :: jsstring
  completed :: bool
  order :: int

text \<open>
  \<open>constructor(id, text, completed = false, order = Date.now())\<close>: an argument that is
  left out (\<open>None\<close>) takes its default; the first parameter is the clock reading.
\<close>

definition new_Task :: "int \<Rightarrow> string \<Rightarrow> jsstring \<Rightarrow> bool option \<Rightarrow> int option \<Rightarrow> task" where
  "new_Task clock i t c ord =
     \<lparr>task_id = i, task_text = t,
      completed = (case c of None \<Rightarrow> False | Some b \<Rightarrow> b),
      order = (case ord of None \<Rightarrow> clock | Some n \<Rightarrow> n)\<rparr>"

subsection \<open>JSON values and stored text\<close>

text \<open>
  The values \<open>JSON.parse\<close> returns. Numbers are integers, the only numbers the script
  writes (\<open>Date.now() + i\<close>). An object is the list of its own properties, each key
  once; where a list repeats a key, its first entry is the property.
\<close>

datatype json =
    JNull
  | JBool bool
  | JNum int
  | JStr jsstring
  | JArr "json list"
  | JObj "(string \<times> json) list"

text \<open>
  A string held by \<open>localStorage\<close>, seen through \<open>JSON.parse\<close>, which is the platform's
  and not the script's: \<open>Json v\<close> stands for a text that \<open>JSON.parse\<close> reads as \<open>v\<close>
  (\<open>JSON.stringify v\<close> is such a text), \<open>NotJson s\<close> for a text \<open>s\<close> on which
  \<open>JSON.parse\<close> throws a SyntaxError; \<open>NotJson []\<close> is the empty string.
\<close>

datatype stored = Json json | NotJson string

definition JSON_stringify :: "json \<Rightarrow> stored" where
  "JSON_stringify v = Json v"

fun JSON_parse :: "stored \<Rightarrow> json option" where
  "JSON_parse (Json v) = Some v"
| "JSON_parse (NotJson s) = None"

text \<open>\<open>if (data)\<close> on a string: only the empty string is falsy; a JSON text is never empty.\<close>

fun truthy :: "stored \<Rightarrow> bool" where
  "truthy (Json v) = True"
| "truthy (NotJson s) = (s \<noteq> [])"

subsection \<open>State, platform calls, outcomes\<close>

datatype event =
    SetItem string stored
  | Render "task list"
  | Announce string
  | ConsoleError string
  | Focus

datatype exn = QuotaExceededError

datatype outcome = Returned | Threw exn

record env =
  now :: int
  randomUUID :: string
  setItem_throws :: bool

record app =
  tasks :: "task list"
  currentFilter :: string
  localStorage :: "string \<Rightarrow> stored option"
  trace :: "event list"

definition STORAGE_KEY :: string where
  "STORAGE_KEY = ''todo-app-tasks''"

text \<open>Sequencing: a call that threw ends the operation; the state it left stands.\<close>

fun and_then :: "outcome \<times> app \<Rightarrow> (app \<Rightarrow> outcome \<times> app) \<Rightarrow> outcome \<times> app" where
  "and_then (Returned, s) f = f s"
| "and_then (Threw x, s) f = (Threw x, s)"

subsection \<open>Persistence: saveTasks (lines 51-53)\<close>

text \<open>\<open>JSON.stringify(tasks)\<close>: each task is an object of its four own properties.\<close>

definition task_json :: "task \<Rightarrow> json" where
  "task_json t =
     JObj [(''id'', JStr (ascii (task_id t))), (''text'', JStr (task_text t)),
           (''completed'', JBool (completed t)), (''order'', JNum (order t))]"

definition tasks_json :: "task list \<Rightarrow> json" where
  "tasks_json ts = JArr (map task_json ts)"

text \<open>
  \<open>localStorage.setItem\<close> is called in every case (the trace records the call); when it
  throws, the store keeps its old value and the exception leaves \<open>saveTasks\<close>, which has
  no handler.
\<close>

definition saveTasks :: "env \<Rightarrow> app \<Rightarrow> outcome \<times> app" where
  "saveTasks e s =
     (let snapshot = JSON_stringify (tasks_json (tasks s));
          s' = s\<lparr>trace := trace s @ [SetItem STORAGE_KEY snapshot]\<rparr>
      in if setItem_throws e then (Threw QuotaExceededError, s')
         else (Returned, s'\<lparr>localStorage := (localStorage s')(STORAGE_KEY \<mapsto> snapshot)\<rparr>))"

subsection \<open>Rendering: renderTasks (lines 77-105) and announce (lines 66-72)\<close>

text \<open>
  \<open>[...tasks].sort((a, b) => a.order - b.order)\<close> is a stable sort by \<open>order\<close>; the
  filter callback follows, branch by branch. \<open>project\<close> is the list \<open>filtered\<close> of
  \<open>renderTasks\<close>, the one handed to the DOM.
\<close>

definition passes :: "string \<Rightarrow> task \<Rightarrow> bool" where
  "passes f t =
     (if f = ''all'' then True
      else if f = ''active'' then \<not> completed t
      else if f = ''completed'' then completed t
      else True)"

definition project :: "task list \<Rightarrow> string \<Rightarrow> task list" where
  "project ts f = filter (passes f) (sort_key order ts)"

definition renderTasks :: "app \<Rightarrow> app" where
  "renderTasks s = s\<lparr>trace := trace s @ [Render (project (tasks s) (currentFilter s))]\<rparr>"

definition announce :: "string \<Rightarrow> app \<Rightarrow> app" where
  "announce message s = s\<lparr>trace := trace s @ [Announce message]\<rparr>"

text \<open>The tail shared by the mutating operations: \<open>saveTasks(); renderTasks(); announce(m)\<close>.\<close>

definition save_render_announce :: "env \<Rightarrow> string \<Rightarrow> app \<Rightarrow> outcome \<times> app" where
  "save_render_announce e message s =
     and_then (saveTasks e s) (\<lambda>s1. (Returned, announce message (renderTasks s1)))"

subsection \<open>Array helpers\<close>

text \<open>\<open>findIndex\<close>: the first index whose element passes, \<open>None\<close> for \<open>-1\<close>.\<close>

fun findIndex :: "('a \<Rightarrow> bool) \<Rightarrow> 'a list \<Rightarrow> nat option" where
  "findIndex P [] = None"
| "findIndex P (x # xs) = (if P x then Some 0 else map_option Suc (findIndex P xs))"

text \<open>\<open>splice(i, 1)\<close> and \<open>splice(i, 0, x)\<close>; a start beyond the end is clamped to it.\<close>

definition splice_remove :: "nat \<Rightarrow> 'a list \<Rightarrow> 'a list" where
  "splice_remove i xs = take i xs @ drop (Suc i) xs"

definition splice_insert :: "nat \<Rightarrow> 'a \<Rightarrow> 'a list \<Rightarrow> 'a list" where
  "splice_insert i x xs = take i xs @ x # drop i xs"

text \<open>Mutating the object that \<open>find\<close> returned: the first element that passes changes.\<close>

fun update_first :: "('a \<Rightarrow> bool) \<Rightarrow> ('a \<Rightarrow> 'a) \<Rightarrow> 'a list \<Rightarrow> 'a list" where
  "update_first P f [] = []"
| "update_first P f (x # xs) = (if P x then f x # xs else x # update_first P f xs)"

subsection \<open>Drag and drop: onDrop (lines 137-160)\<close>

text \<open>\<open>tasks.forEach((t, i) => (t.order = now + i))\<close>, from index \<open>i\<close> on.\<close>

fun reassign_order :: "int \<Rightarrow> nat \<Rightarrow> task list \<Rightarrow> task list" where
  "reassign_order clock i [] = []"
| "reassign_order clock i (t # ts) =
     t\<lparr>order := clock + int i\<rparr> # reassign_order clock (Suc i) ts"

text \<open>
  The two \<open>splice\<close> calls: the dragged task leaves its place and enters at \<open>insertAt\<close>.
\<close>

definition moved :: "nat \<Rightarrow> nat \<Rightarrow> task list \<Rightarrow> task list" where
  "moved draggedIndex targetIndex ts =
     (let draggedTask = ts ! draggedIndex;
          rest = splice_remove draggedIndex ts;
          insertAt = (if draggedIndex < targetIndex then targetIndex - 1 else targetIndex)
      in splice_insert insertAt draggedTask rest)"

text \<open>
  \<open>draggedId\<close> is the transfer payload (the empty string when there is none),
  \<open>targetId\<close> the \<open>data-id\<close> of the item dropped on.
\<close>

definition onDrop :: "env \<Rightarrow> string \<Rightarrow> string \<Rightarrow> app \<Rightarrow> outcome \<times> app" where
  "onDrop e draggedId targetId s =
     (if draggedId = [] \<or> draggedId = targetId then (Returned, s)
      else
        (case (findIndex (\<lambda>t. task_id t = draggedId) (tasks s),
               findIndex (\<lambda>t. task_id t = targetId) (tasks s)) of
           (Some draggedIndex, Some targetIndex) \<Rightarrow>
             save_render_announce e ''Task reordered''
               (s\<lparr>tasks := reassign_order (now e) 0 (moved draggedIndex targetIndex (tasks s))\<rparr>)
         | _ \<Rightarrow> (Returned, s)))"

subsection \<open>Task manipulation (lines 173-220)\<close>

definition addTask :: "env \<Rightarrow> jsstring \<Rightarrow> app \<Rightarrow> outcome \<times> app" where
  "addTask e txt s =
     (if txt = [] then (Returned, s)
      else
        (let task = new_Task (now e) (randomUUID e) txt None None
         in and_then (save_render_announce e ''Task added'' (s\<lparr>tasks := tasks s @ [task]\<rparr>))
              (\<lambda>s1. (Returned, s1\<lparr>trace := trace s1 @ [Focus]\<rparr>))))"

definition editTask :: "env \<Rightarrow> string \<Rightarrow> jsstring \<Rightarrow> app \<Rightarrow> outcome \<times> app" where
  "editTask e i newText s =
     (case find (\<lambda>t. task_id t = i) (tasks s) of
        None \<Rightarrow> (Returned, s)
      | Some task \<Rightarrow>
          save_render_announce e ''Task edited''
            (s\<lparr>tasks := update_first (\<lambda>t. task_id t = i) (\<lambda>t. t\<lparr>task_text := newText\<rparr>) (tasks s)\<rparr>))"

definition deleteTask :: "env \<Rightarrow> string \<Rightarrow> app \<Rightarrow> outcome \<times> app" where
  "deleteTask e i s =
     (case findIndex (\<lambda>t. task_id t = i) (tasks s) of
        None \<Rightarrow> (Returned, s)
      | Some index \<Rightarrow>
          save_render_announce e ''Task deleted'' (s\<lparr>tasks := splice_remove index (tasks s)\<rparr>))"

definition toggleComplete :: "env \<Rightarrow> string \<Rightarrow> app \<Rightarrow> outcome \<times> app" where
  "toggleComplete e i s =
     (case find (\<lambda>t. task_id t = i) (tasks s) of
        None \<Rightarrow> (Returned, s)
      | Some task \<Rightarrow>
          save_render_announce e
            (if \<not> completed task then ''Task completed'' else ''Task marked as active'')
            (s\<lparr>tasks := update_first (\<lambda>t. task_id t = i)
                           (\<lambda>t. t\<lparr>completed := \<not> completed t\<rparr>) (tasks s)\<rparr>))"

definition clearCompleted :: "env \<Rightarrow> app \<Rightarrow> outcome \<times> app" where
  "clearCompleted e s =
     (let before = length (tasks s);
          s1 = s\<lparr>tasks := filter (\<lambda>t. \<not> completed t) (tasks s)\<rparr>
      in if length (tasks s1) \<noteq> before
         then save_render_announce e ''Completed tasks cleared'' s1
         else (Returned, s1))"

subsection \<open>The submit handler (lines 226-233)\<close>




subsection \<open>The mutating operations, as one dispatch\<close>

datatype operation =
    Add jsstring
  | Edit string jsstring
  | Delete string
  | Toggle string
  | ClearCompleted
  | Drop string string

fun perform :: "env \<Rightarrow> operation \<Rightarrow> app \<Rightarrow> outcome \<times> app" where
  "perform e (Add txt) s = addTask e txt s"
| "perform e (Edit i newText) s = editTask e i newText s"
| "perform e (Delete i) s = deleteTask e i s"
| "perform e (Toggle i) s = toggleComplete e i s"
| "perform e ClearCompleted s = clearCompleted e s"
| "perform e (Drop draggedId targetId) s = onDrop e draggedId targetId s"

subsection \<open>Loading: loadTasks (lines 36-49)\<close>

text \<open>
  \<open>loadTasks\<close> builds tasks from whatever \<open>JSON.parse\<close> returns, so the fields of a
  loaded task are JavaScript values: \<open>None\<close> is \<open>undefined\<close>. The defaults of the
  constructor replace an \<open>undefined\<close> third or fourth argument, so \<open>completed\<close> and
  \<open>order\<close> are never \<open>undefined\<close>.
\<close>

record loaded_task =
  loaded_id :: "json option"
  loaded_text :: "json option"
  loaded_completed :: json
  loaded_order :: json

text \<open>
  Reading a property \<open>t.k\<close> of a parsed value other than \<open>null\<close>, for the four keys
  the script reads (none of them is a property of a string, a number, a boolean or an
  array): the own property of an object, otherwise \<open>undefined\<close>.
\<close>

fun property :: "json \<Rightarrow> string \<Rightarrow> json option" where
  "property (JObj kvs) k = map_of kvs k"
| "property v k = None"

text \<open>\<open>new Task(t.id, t.text, t.completed, t.order)\<close> at clock reading \<open>clock\<close>.\<close>

definition loaded_Task :: "int \<Rightarrow> json \<Rightarrow> loaded_task" where
  "loaded_Task clock t =
     \<lparr>loaded_id = property t ''id'', loaded_text = property t ''text'',
      loaded_completed = (case property t ''completed'' of None \<Rightarrow> JBool False | Some c \<Rightarrow> c),
      loaded_order = (case property t ''order'' of None \<Rightarrow> JNum clock | Some n \<Rightarrow> n)\<rparr>"

text \<open>
  \<open>parsed.map(t => new Task(...))\<close> inside the \<open>try\<close>: \<open>None\<close> is a TypeError, thrown
  when \<open>parsed\<close> is not an array (it has no callable \<open>map\<close>) and when an element is
  \<open>null\<close> (\<open>null.id\<close>). \<open>clock i\<close> is the reading of \<open>Date.now()\<close> at element \<open>i\<close>.
\<close>

fun map_elements :: "(nat \<Rightarrow> int) \<Rightarrow> nat \<Rightarrow> json list \<Rightarrow> loaded_task list option" where
  "map_elements clock i [] = Some []"
| "map_elements clock i (JNull # ts) = None"
| "map_elements clock i (t # ts) =
     map_option (Cons (loaded_Task (clock i) t)) (map_elements clock (Suc i) ts)"

fun parsed_map :: "(nat \<Rightarrow> int) \<Rightarrow> json \<Rightarrow> loaded_task list option" where
  "parsed_map clock (JArr ts) = map_elements clock 0 ts"
| "parsed_map clock v = None"

text \<open>
  The result is the new value of \<open>tasks\<close> and the calls made to \<open>console.error\<close>. Both
  exceptions of the \<open>try\<close> block end in the \<open>catch\<close>, which logs and assigns \<open>[]\<close>.
\<close>

definition loadTasks :: "(nat \<Rightarrow> int) \<Rightarrow> (string \<Rightarrow> stored option) \<Rightarrow> loaded_task list \<times> event list" where
  "loadTasks clock storage =
     (case storage STORAGE_KEY of
        None \<Rightarrow> ([], [])
      | Some data \<Rightarrow>
          if truthy data then
            (case JSON_parse data of
               None \<Rightarrow> ([], [ConsoleError ''Failed to parse tasks from storage''])
             | Some parsed \<Rightarrow>
                 (case parsed_map clock parsed of
                    None \<Rightarrow> ([], [ConsoleError ''Failed to parse tasks from storage''])
                  | Some ts \<Rightarrow> (ts, [])))
          else ([], []))"

text \<open>A task of the script as the JavaScript values of its fields.\<close>

definition js_task :: "task \<Rightarrow> loaded_task" where
  "js_task t =
     \<lparr>loaded_id = Some (JStr (ascii (task_id t))), loaded_text = Some (JStr (task_text t)),
      loaded_completed = JBool (completed t), loaded_order = JNum (order t)\<rparr>"

section \<open>The scenario of the specification\<close>

text \<open>Three tasks stored in the sequence A, B, C with the order keys 1, 2, 3.\<close>

definition task_A :: task where
  "task_A = \<lparr>task_id = ''A'', task_text = ascii ''a'', completed = False, order = 1\<rparr>"

definition task_B :: task where
  "task_B = \<lparr>task_id = ''B'', task_text = ascii ''b'', completed = False, order = 2\<rparr>"

definition task_C :: task where
  "task_C = \<lparr>task_id = ''C'', task_text = ascii ''c'', completed = False, order = 3\<rparr>"

definition abc_state :: app where
  "abc_state =
     \<lparr>tasks = [task_A, task_B, task_C], currentFilter = ''all'',
      localStorage = (\<lambda>k. None), trace = []\<rparr>"

definition quiet_env :: env where
  "quiet_env = \<lparr>now = 1000, randomUUID = ''u-1'', setItem_throws = False\<rparr>"

definition full_env :: env where
  "full_env = \<lparr>now = 1000, randomUUID = ''u-1'', setItem_throws = True\<rparr>"

section \<open>Basic facts\<close>

lemma tasks_save_render_announce [simp]:
  "tasks (snd (save_render_announce e m s)) = tasks s"
  by (simp add: save_render_announce_def saveTasks_def renderTasks_def announce_def Let_def)

lemma trace_save_render_announce:
  "trace (snd (save_render_announce e m s)) =
     trace s @ SetItem STORAGE_KEY (JSON_stringify (tasks_json (tasks s))) #
       (if setItem_throws e then []
        else [Render (project (tasks s) (currentFilter s)), Announce m])"
  by (simp add: save_render_announce_def saveTasks_def renderTasks_def announce_def Let_def)

lemma save_render_announce_eq:
  "save_render_announce e m s =
     (if setItem_throws e
      then (Threw QuotaExceededError,
            s\<lparr>trace := trace s @ [SetItem STORAGE_KEY (JSON_stringify (tasks_json (tasks s)))]\<rparr>)
      else (Returned,
            s\<lparr>trace := trace s @ [SetItem STORAGE_KEY (JSON_stringify (tasks_json (tasks s))),
                                   Render (project (tasks s) (currentFilter s)), Announce m],
              localStorage :=
                (localStorage s)(STORAGE_KEY \<mapsto> JSON_stringify (tasks_json (tasks s)))\<rparr>))"
  by (simp add: save_render_announce_def saveTasks_def renderTasks_def announce_def Let_def)

lemma unat_of_char: "unat (of_char c :: 16 word) = of_char c"
proof -
  have "(of_char c :: 16 word) = of_nat (of_char c)" by (simp add: of_nat_of_char)
  moreover have "(of_char c :: nat) < 2 ^ 16"
  proof -
    have "(of_char c :: nat) mod 256 < 256" by simp
    then have "(of_char c :: nat) < 256" by (simp only: of_char_mod_256)
    moreover have "(256 :: nat) < 2 ^ 16" by simp
    ultimately show ?thesis by (rule less_trans)
  qed
  ultimately show ?thesis by (simp add: unat_of_nat)
qed

lemma of_char_word_eq_iff: "(of_char c :: 16 word) = of_char d \<longleftrightarrow> c = d"
  by (metis unat_of_char of_char_eq_iff)

lemma ascii_eq_iff [simp]: "ascii a = ascii b \<longleftrightarrow> a = b"
  unfolding ascii_def
  by (rule inj_map_eq_map) (simp add: inj_def of_char_word_eq_iff)

lemma findIndex_None: "findIndex P xs = None \<longleftrightarrow> (\<forall>x\<in>set xs. \<not> P x)"
  by (induction xs) auto

lemma findIndex_Some: "findIndex P xs = Some i \<Longrightarrow> i < length xs \<and> P (xs ! i)"
  by (induction xs arbitrary: i) (auto split: if_splits)

lemma findIndex_member: "x \<in> set xs \<Longrightarrow> P x \<Longrightarrow> \<exists>i. findIndex P xs = Some i"
  by (cases "findIndex P xs") (auto simp: findIndex_None)

lemma passes_all: "passes ''all'' = (\<lambda>t. True)"
  by (rule ext) (simp add: passes_def)

lemma passes_active: "passes ''active'' = (\<lambda>t. \<not> completed t)"
  by (rule ext) (simp add: passes_def)

lemma passes_completed: "passes ''completed'' = completed"
  by (rule ext) (simp add: passes_def)

lemmas scenario_defs =
  abc_state_def quiet_env_def full_env_def task_A_def task_B_def task_C_def

section \<open>Reordering by drag and drop\<close>

text \<open>
  C1 (as amended). From the collection A, B, C, dropping A onto C (a forward move)
  removes A and inserts it at C's original index minus one, which is just before C: the
  sequence becomes B, A, C. Dropping C onto A (a backward move) inserts C at A's index:
  the sequence becomes C, A, B. Both hold whatever the clock reads and whether or not the
  write to storage succeeds.
\<close>

theorem reorder_scenario:
  "map task_id (tasks (snd (onDrop e ''A'' ''C'' abc_state))) = [''B'', ''A'', ''C'']
   \<and> map task_id (tasks (snd (onDrop e ''C'' ''A'' abc_state))) = [''C'', ''A'', ''B'']"
  by (simp add: onDrop_def scenario_defs moved_def splice_remove_def splice_insert_def)

text \<open>
  C1 as stated fails on its forward move: the drop of A onto C leaves the sequence
  B, A, C (with fresh order keys), which is not B, C, A.
\<close>

theorem reorder_scenario_forward_counterexample:
  "tasks (snd (onDrop quiet_env ''A'' ''C'' abc_state))
     = [task_B\<lparr>order := 1000\<rparr>, task_A\<lparr>order := 1001\<rparr>, task_C\<lparr>order := 1002\<rparr>]
   \<and> map task_id (tasks (snd (onDrop quiet_env ''A'' ''C'' abc_state))) \<noteq> [''B'', ''C'', ''A'']"
  by (simp add: onDrop_def scenario_defs moved_def splice_remove_def splice_insert_def)

subsection \<open>What every successful drop does\<close>

lemma order_reassign_order:
  "map order (reassign_order c i ts) = map (\<lambda>k. c + int k) [i..<i + length ts]"
proof (induction ts arbitrary: i)
  case Nil
  then show ?case by simp
next
  case (Cons t ts)
  have "i < Suc i + length ts" by simp
  then have "[i..<Suc i + length ts] = i # [Suc i..<Suc i + length ts]"
    by (rule upt_conv_Cons)
  moreover have "i + length (t # ts) = Suc i + length ts" by simp
  ultimately have "[i..<i + length (t # ts)] = i # [Suc i..<Suc i + length ts]"
    by (simp only:)
  then show ?case using Cons.IH [of "Suc i"] by (simp del: upt_Suc)
qed

lemma length_reassign_order [simp]: "length (reassign_order c i ts) = length ts"
  by (induction ts arbitrary: i) auto

lemma content_reassign_order:
  "map (\<lambda>t. (task_id t, task_text t, completed t)) (reassign_order c i ts)
     = map (\<lambda>t. (task_id t, task_text t, completed t)) ts"
  by (induction ts arbitrary: i) auto

lemma mset_splice_remove:
  "i < length xs \<Longrightarrow> add_mset (xs ! i) (mset (splice_remove i xs)) = mset xs"
proof -
  assume "i < length xs"
  then have "xs = take i xs @ xs ! i # drop (Suc i) xs" by (rule id_take_nth_drop)
  then have "mset xs = mset (take i xs @ xs ! i # drop (Suc i) xs)" by simp
  then show ?thesis by (simp add: splice_remove_def)
qed

lemma mset_splice_insert: "mset (splice_insert i x xs) = add_mset x (mset xs)"
proof -
  have "mset (take i xs) + mset (drop i xs) = mset xs"
    by (metis append_take_drop_id mset_append)
  then show ?thesis by (simp add: splice_insert_def)
qed

lemma mset_moved: "d < length ts \<Longrightarrow> mset (moved d t ts) = mset ts"
  by (simp add: moved_def mset_splice_insert mset_splice_remove)

lemma length_moved: "d < length ts \<Longrightarrow> length (moved d t ts) = length ts"
  by (metis mset_moved size_mset)

text \<open>
  A drop passes both guards of \<open>onDrop\<close> when the payload is present, differs from the
  target's id, and both ids are ids of stored tasks; the collection it leaves is the
  moved one with fresh keys, also when the write to storage throws afterwards.
\<close>

lemma onDrop_tasks:
  assumes "draggedId \<noteq> []" "draggedId \<noteq> targetId"
    and "draggedId \<in> task_id ` set (tasks s)" "targetId \<in> task_id ` set (tasks s)"
  shows "\<exists>d t. findIndex (\<lambda>x. task_id x = draggedId) (tasks s) = Some d
           \<and> findIndex (\<lambda>x. task_id x = targetId) (tasks s) = Some t
           \<and> d < length (tasks s)
           \<and> tasks (snd (onDrop e draggedId targetId s))
               = reassign_order (now e) 0 (moved d t (tasks s))"
proof -
  from assms(3) obtain d where d: "findIndex (\<lambda>x. task_id x = draggedId) (tasks s) = Some d"
    using findIndex_member [of _ "tasks s" "\<lambda>x. task_id x = draggedId"] by auto
  from assms(4) obtain t where t: "findIndex (\<lambda>x. task_id x = targetId) (tasks s) = Some t"
    using findIndex_member [of _ "tasks s" "\<lambda>x. task_id x = targetId"] by auto
  from d have "d < length (tasks s)" by (simp add: findIndex_Some)
  then show ?thesis using assms(1,2) d t by (simp add: onDrop_def)
qed

text \<open>
  C6. After a drop whose payload is present, differs from the target's id and, like the
  target's id, names a stored task, the task at position \<open>i\<close> carries the order key
  \<open>now + i\<close> for the one clock reading \<open>now\<close> of the drop, whatever the keys were before:
  the keys increase strictly along the stored sequence, and the stable sort by order
  that \<open>renderTasks\<close> applies returns the stored sequence itself.
\<close>

theorem reorder_fresh_order_keys:
  assumes "draggedId \<noteq> []" "draggedId \<noteq> targetId"
    and "draggedId \<in> task_id ` set (tasks s)" "targetId \<in> task_id ` set (tasks s)"
  shows "map order (tasks (snd (onDrop e draggedId targetId s)))
           = map (\<lambda>i. now e + int i) [0..<length (tasks s)]
       \<and> sorted_wrt (<) (map order (tasks (snd (onDrop e draggedId targetId s))))
       \<and> sort_key order (tasks (snd (onDrop e draggedId targetId s)))
           = tasks (snd (onDrop e draggedId targetId s))"
proof -
  let ?ts' = "tasks (snd (onDrop e draggedId targetId s))"
  from onDrop_tasks [OF assms, of e] obtain d t where
    d: "d < length (tasks s)" and ts': "?ts' = reassign_order (now e) 0 (moved d t (tasks s))"
    by blast
  have keys: "map order ?ts' = map (\<lambda>i. now e + int i) [0..<length (tasks s)]"
    by (simp add: ts' order_reassign_order length_moved [OF d])
  have strict: "sorted_wrt (<) (map order ?ts')"
    unfolding keys by (simp add: sorted_wrt_map sorted_wrt_iff_nth_less)
  then have "sorted (map order ?ts')"
    by (rule strict_sorted_imp_sorted)
  then have "sort_key order ?ts' = ?ts'" by (rule sort_key_id_if_sorted)
  with keys strict show ?thesis by simp
qed

text \<open>
  The theorem at a drop of C onto A in a collection whose keys collide (all three are 7),
  with the clock at 1000: the keys become 1000, 1001, 1002 along C, A, B.
\<close>

theorem reorder_fresh_order_keys_witness:
  "map order (tasks (snd (onDrop quiet_env ''C'' ''A''
       (abc_state\<lparr>tasks := map (\<lambda>t. t\<lparr>order := 7\<rparr>) [task_A, task_B, task_C]\<rparr>))))
     = [1000, 1001, 1002]
   \<and> map task_id (tasks (snd (onDrop quiet_env ''C'' ''A''
       (abc_state\<lparr>tasks := map (\<lambda>t. t\<lparr>order := 7\<rparr>) [task_A, task_B, task_C]\<rparr>))))
     = [''C'', ''A'', ''B'']"
  using reorder_fresh_order_keys [of "''C''" "''A''"
      "abc_state\<lparr>tasks := map (\<lambda>t. t\<lparr>order := 7\<rparr>) [task_A, task_B, task_C]\<rparr>" quiet_env]
  by (simp add: onDrop_def scenario_defs moved_def splice_remove_def splice_insert_def)

text \<open>
  C10. A drop that passes the guards of \<open>onDrop\<close> permutes the collection: the length
  and the set of ids are the same, and the tasks, read without their order keys (id,
  text and completed flag), are the same multiset as before. Only positions and order
  keys change.
\<close>

theorem reorder_is_permutation:
  assumes "draggedId \<noteq> []" "draggedId \<noteq> targetId"
    and "draggedId \<in> task_id ` set (tasks s)" "targetId \<in> task_id ` set (tasks s)"
  shows "length (tasks (snd (onDrop e draggedId targetId s))) = length (tasks s)
       \<and> set (map task_id (tasks (snd (onDrop e draggedId targetId s))))
           = set (map task_id (tasks s))
       \<and> mset (map (\<lambda>t. (task_id t, task_text t, completed t))
                 (tasks (snd (onDrop e draggedId targetId s))))
           = mset (map (\<lambda>t. (task_id t, task_text t, completed t)) (tasks s))"
proof -
  let ?ts' = "tasks (snd (onDrop e draggedId targetId s))"
  let ?c = "\<lambda>t. (task_id t, task_text t, completed t)"
  from onDrop_tasks [OF assms, of e] obtain d t where
    d: "d < length (tasks s)" and ts': "?ts' = reassign_order (now e) 0 (moved d t (tasks s))"
    by blast
  have len: "length ?ts' = length (tasks s)"
    by (simp add: ts' length_moved [OF d])
  have "map ?c ?ts' = map ?c (moved d t (tasks s))"
    by (simp add: ts' content_reassign_order)
  then have m: "mset (map ?c ?ts') = mset (map ?c (tasks s))"
    by (simp add: mset_moved [OF d])
  have "map task_id ?ts' = map fst (map ?c ?ts')" by simp
  also have "set \<dots> = fst ` set_mset (mset (map ?c ?ts'))"
    by (simp only: set_map set_mset_mset)
  also have "\<dots> = fst ` set_mset (mset (map ?c (tasks s)))" by (simp only: m)
  also have "\<dots> = set (map task_id (tasks s))" by (simp add: image_image)
  finally have ids: "set (map task_id ?ts') = set (map task_id (tasks s))" .
  from len ids m show ?thesis by simp
qed

text \<open>The theorem at the drop of A onto B in the scenario, which leaves A, B, C in place.\<close>

theorem reorder_is_permutation_witness:
  "length (tasks (snd (onDrop full_env ''A'' ''B'' abc_state))) = 3
   \<and> map (\<lambda>t. (task_id t, task_text t, completed t))
        (tasks (snd (onDrop full_env ''A'' ''B'' abc_state)))
       = [(''A'', ascii ''a'', False), (''B'', ascii ''b'', False), (''C'', ascii ''c'', False)]"
  using reorder_is_permutation [of "''A''" "''B''" abc_state full_env]
  by (simp add: onDrop_def scenario_defs moved_def splice_remove_def splice_insert_def)

section \<open>Operations on an id that no task has\<close>

text \<open>
  C4. When no stored task has the id, \<open>editTask\<close>, \<open>deleteTask\<close> and \<open>toggleComplete\<close>
  return with the whole state as it was: the collection, the store and the trace, so
  there is no call to \<open>localStorage.setItem\<close> and no announcement.
\<close>

theorem absent_id_ignored:
  assumes "i \<notin> task_id ` set (tasks s)"
  shows "editTask e i newText s = (Returned, s)
       \<and> deleteTask e i s = (Returned, s)
       \<and> toggleComplete e i s = (Returned, s)"
proof -
  from assms have none: "\<forall>t\<in>set (tasks s). \<not> task_id t = i" by auto
  then have f: "find (\<lambda>t. task_id t = i) (tasks s) = None"
    by (simp add: find_None_iff)
  from none have fi: "findIndex (\<lambda>t. task_id t = i) (tasks s) = None"
    by (simp add: findIndex_None)
  show ?thesis by (simp add: editTask_def deleteTask_def toggleComplete_def f fi)
qed

theorem absent_id_ignored_witness:
  "''Z'' \<notin> task_id ` set (tasks abc_state)
   \<and> editTask full_env ''Z'' (ascii ''new text'') abc_state = (Returned, abc_state)
   \<and> deleteTask full_env ''Z'' abc_state = (Returned, abc_state)
   \<and> toggleComplete full_env ''Z'' abc_state = (Returned, abc_state)"
proof -
  have absent: "''Z'' \<notin> task_id ` set (tasks abc_state)"
    by (simp add: scenario_defs)
  show ?thesis using absent absent_id_ignored [OF absent, of full_env "ascii ''new text''"] by simp
qed

section \<open>Clearing the completed tasks\<close>

lemma filter_length_same: "length (filter P xs) = length xs \<longleftrightarrow> filter P xs = xs"
  by (metis filter_id_conv length_filter_less less_irrefl filter_True)

text \<open>
  C5. \<open>clearCompleted\<close> leaves exactly the tasks that are not completed. It calls
  \<open>localStorage.setItem\<close>, and after a write that succeeds renders and announces, only
  when the collection changed; otherwise the trace is as it was. A second call right
  after any call returns with the state unchanged: no second write, no second
  announcement.
\<close>

theorem clearCompleted_effects:
  "tasks (snd (clearCompleted e s)) = filter (\<lambda>t. \<not> completed t) (tasks s)
   \<and> trace (snd (clearCompleted e s)) =
       trace s @
        (if tasks (snd (clearCompleted e s)) = tasks s then []
         else SetItem STORAGE_KEY
                (JSON_stringify (tasks_json (filter (\<lambda>t. \<not> completed t) (tasks s)))) #
              (if setItem_throws e then []
               else [Render (project (filter (\<lambda>t. \<not> completed t) (tasks s)) (currentFilter s)),
                     Announce ''Completed tasks cleared'']))
   \<and> clearCompleted e' (snd (clearCompleted e s)) = (Returned, snd (clearCompleted e s))"
proof -
  have t: "tasks (snd (clearCompleted e s)) = filter (\<lambda>t. \<not> completed t) (tasks s)"
    by (simp add: clearCompleted_def Let_def)
  have tr: "trace (snd (clearCompleted e s)) =
       trace s @
        (if filter (\<lambda>t. \<not> completed t) (tasks s) = tasks s then []
         else SetItem STORAGE_KEY
                (JSON_stringify (tasks_json (filter (\<lambda>t. \<not> completed t) (tasks s)))) #
              (if setItem_throws e then []
               else [Render (project (filter (\<lambda>t. \<not> completed t) (tasks s)) (currentFilter s)),
                     Announce ''Completed tasks cleared'']))"
    by (simp add: clearCompleted_def Let_def filter_length_same trace_save_render_announce)
  have again: "clearCompleted e' s' = (Returned, s')"
    if "tasks s' = filter (\<lambda>t. \<not> completed t) (tasks s)" for s'
  proof -
    have "filter (\<lambda>t. \<not> completed t) (tasks s') = tasks s'"
      using that by simp
    then show ?thesis by (simp add: clearCompleted_def Let_def)
  qed
  show ?thesis using t tr again [OF t] by simp
qed

text \<open>
  The theorem on the collection A, B, C with B completed: the first call leaves A, C,
  writes, renders and announces; the second call adds nothing to the trace.
\<close>

theorem clearCompleted_effects_witness:
  "tasks (snd (clearCompleted quiet_env
       (abc_state\<lparr>tasks := [task_A, task_B\<lparr>completed := True\<rparr>, task_C]\<rparr>)))
     = [task_A, task_C]
   \<and> trace (snd (clearCompleted quiet_env
       (abc_state\<lparr>tasks := [task_A, task_B\<lparr>completed := True\<rparr>, task_C]\<rparr>)))
     = [SetItem STORAGE_KEY (JSON_stringify (tasks_json [task_A, task_C])),
        Render [task_A, task_C], Announce ''Completed tasks cleared'']
   \<and> trace (snd (clearCompleted quiet_env (snd (clearCompleted quiet_env
       (abc_state\<lparr>tasks := [task_A, task_B\<lparr>completed := True\<rparr>, task_C]\<rparr>)))))
     = [SetItem STORAGE_KEY (JSON_stringify (tasks_json [task_A, task_C])),
        Render [task_A, task_C], Announce ''Completed tasks cleared'']"
  using clearCompleted_effects [of quiet_env
      "abc_state\<lparr>tasks := [task_A, task_B\<lparr>completed := True\<rparr>, task_C]\<rparr>" quiet_env]
  by (simp add: project_def passes_all scenario_defs)

section \<open>The projection handed to the renderer\<close>

text \<open>
  C9. Under the filter \<open>all\<close> the projection has the ids of the collection (it is a
  permutation of it). Under \<open>active\<close> it holds the tasks that are not completed, under
  \<open>completed\<close> those that are, each as often as the collection does; the two
  projections together are the collection, so every task is in exactly one of them.
\<close>

theorem project_partition:
  "set (map task_id (project ts ''all'')) = set (map task_id ts)
   \<and> mset (project ts ''all'') = mset ts
   \<and> mset (project ts ''active'') = filter_mset (\<lambda>t. \<not> completed t) (mset ts)
   \<and> mset (project ts ''completed'') = filter_mset completed (mset ts)
   \<and> mset (project ts ''active'') + mset (project ts ''completed'') = mset ts"
  by (simp add: project_def passes_all passes_active passes_completed)

text \<open>
  The theorem on the collection C, B, A (stored against the order keys) with B
  completed: the projections are sorted by order key and split by the flag.
\<close>

theorem project_partition_witness:
  "map task_id (project [task_C, task_B\<lparr>completed := True\<rparr>, task_A] ''all'') = [''A'', ''B'', ''C'']
   \<and> map task_id (project [task_C, task_B\<lparr>completed := True\<rparr>, task_A] ''active'') = [''A'', ''C'']
   \<and> map task_id (project [task_C, task_B\<lparr>completed := True\<rparr>, task_A] ''completed'') = [''B'']"
  using project_partition [of "[task_C, task_B\<lparr>completed := True\<rparr>, task_A]"]
  by (simp add: project_def passes_all passes_active passes_completed scenario_defs)

section \<open>The round trip through storage\<close>

lemma property_task_json:
  "property (task_json t) ''id'' = Some (JStr (ascii (task_id t)))"
  "property (task_json t) ''text'' = Some (JStr (task_text t))"
  "property (task_json t) ''completed'' = Some (JBool (completed t))"
  "property (task_json t) ''order'' = Some (JNum (order t))"
  by (simp_all add: task_json_def)

lemma loaded_Task_task_json: "loaded_Task c (task_json t) = js_task t"
  by (simp add: loaded_Task_def js_task_def property_task_json)

lemma map_elements_task_json:
  "map_elements clock i (map task_json ts) = Some (map js_task ts)"
proof (induction ts arbitrary: i)
  case Nil
  then show ?case by simp
next
  case (Cons t ts)
  have "task_json t \<noteq> JNull" by (simp add: task_json_def)
  then have "map_elements clock i (task_json t # map task_json ts) =
      map_option (Cons (loaded_Task (clock i) (task_json t)))
        (map_elements clock (Suc i) (map task_json ts))"
    by (cases "task_json t") simp_all
  then show ?case by (simp add: Cons.IH loaded_Task_task_json)
qed

lemma inj_js_task: "inj js_task"
  by (rule injI) (simp add: js_task_def)

text \<open>
  C3. When the write succeeds, \<open>loadTasks\<close> on the store that \<open>saveTasks\<close> left returns
  the saved collection, task by task in the same sequence, each with its id, text,
  completed flag and order key as the JavaScript values of the saved fields, and logs
  nothing; no clock reading enters the result. Two collections with the same loaded
  form are equal (\<open>js_task\<close> is injective), so the loaded collection is the saved one.
\<close>

theorem load_after_save:
  assumes "\<not> setItem_throws e"
  shows "fst (saveTasks e s) = Returned
       \<and> loadTasks clock (localStorage (snd (saveTasks e s))) = (map js_task (tasks s), [])
       \<and> inj js_task"
proof -
  have "loadTasks clock (localStorage (snd (saveTasks e s))) = (map js_task (tasks s), [])"
    using assms
    by (simp add: saveTasks_def Let_def loadTasks_def JSON_stringify_def tasks_json_def
        map_elements_task_json)
  moreover have "fst (saveTasks e s) = Returned"
    using assms by (simp add: saveTasks_def Let_def)
  ultimately show ?thesis by (simp add: inj_js_task)
qed

theorem load_after_save_witness:
  "\<not> setItem_throws quiet_env
   \<and> loadTasks (\<lambda>i. 2000) (localStorage (snd (saveTasks quiet_env abc_state)))
       = ([js_task task_A, js_task task_B, js_task task_C], [])"
proof -
  have ok: "\<not> setItem_throws quiet_env" by (simp add: scenario_defs)
  show ?thesis using ok load_after_save [OF ok, of abc_state "\<lambda>i. 2000"]
    by (simp add: scenario_defs)
qed

section \<open>Loading what was not saved by the script\<close>

lemma map_elements_result:
  "map_elements clock i ts =
     (if JNull \<in> set ts then None
      else Some (map (\<lambda>(k, t). loaded_Task (clock k) t) (enumerate i ts)))"
  by (induction clock i ts rule: map_elements.induct) auto

text \<open>
  What \<open>loadTasks\<close> assigns to \<open>tasks\<close>, by the stored item: the empty collection when
  the item is missing or the empty string, when the text is not JSON, when the parsed
  value is not an array, and when the array has a \<open>null\<close> element; for every other
  array one task per element, whatever the elements are.
\<close>

lemma loadTasks_result:
  "fst (loadTasks clock storage) =
     (case storage STORAGE_KEY of
        Some (Json (JArr ts)) \<Rightarrow>
          if JNull \<in> set ts then []
          else map (\<lambda>(k, t). loaded_Task (clock k) t) (enumerate 0 ts)
      | _ \<Rightarrow> [])"
proof (cases "storage STORAGE_KEY")
  case None
  then show ?thesis by (simp add: loadTasks_def)
next
  case (Some data)
  show ?thesis
  proof (cases data)
    case (Json v)
    then show ?thesis using Some
      by (cases v) (simp_all add: loadTasks_def map_elements_result)
  next
    case (NotJson x)
    then show ?thesis using Some by (simp add: loadTasks_def)
  qed
qed

text \<open>
  C8. The claim asks for the empty collection on every stored text that is not a
  snapshot of tasks, and \<open>loadTasks\<close> misses it. On the stored text \<open>[{}, 5]\<close> it yields
  two tasks whose id and text are \<open>undefined\<close> and logs nothing, although its own
  \<open>catch\<close> resets and logs on the neighbouring inputs: on \<open>[{}, null]\<close>, on the object
  \<open>{}\<close> and on text that is not JSON the result is the empty collection and one call to
  \<open>console.error\<close>.
\<close>

theorem loadTasks_keeps_non_snapshot:
  "loadTasks (\<lambda>i. 2000) ((\<lambda>k. None)(STORAGE_KEY \<mapsto> Json (JArr [JObj [], JNum 5])))
     = ([\<lparr>loaded_id = None, loaded_text = None, loaded_completed = JBool False,
           loaded_order = JNum 2000\<rparr>,
         \<lparr>loaded_id = None, loaded_text = None, loaded_completed = JBool False,
           loaded_order = JNum 2000\<rparr>], [])
   \<and> loadTasks (\<lambda>i. 2000) ((\<lambda>k. None)(STORAGE_KEY \<mapsto> Json (JArr [JObj [], JNull])))
     = ([], [ConsoleError ''Failed to parse tasks from storage''])
   \<and> loadTasks (\<lambda>i. 2000) ((\<lambda>k. None)(STORAGE_KEY \<mapsto> Json (JObj [])))
     = ([], [ConsoleError ''Failed to parse tasks from storage''])
   \<and> loadTasks (\<lambda>i. 2000) ((\<lambda>k. None)(STORAGE_KEY \<mapsto> NotJson ''[{}, 5''))
     = ([], [ConsoleError ''Failed to parse tasks from storage''])"
  by (simp add: loadTasks_def loaded_Task_def)

section \<open>Adding a task\<close>










section \<open>A write to storage that fails\<close>

text \<open>
  C7 (as amended). When \<open>localStorage.setItem\<close> throws, each mutating operation leaves
  the collection it would leave after a write that succeeds, and the store keeps its
  previous value. The script neither catches nor logs the exception: an operation that
  reached the write ends with it, having made the one \<open>setItem\<close> call and nothing else
  (no \<open>console.error\<close>, no render, no announcement); an operation that did not reach
  the write returns with the trace as it was.
\<close>

theorem write_failure_keeps_collection:
  assumes "setItem_throws e"
  shows "tasks (snd (perform e opn s))
           = tasks (snd (perform (e\<lparr>setItem_throws := False\<rparr>) opn s))
       \<and> localStorage (snd (perform e opn s)) = localStorage s
       \<and> (fst (perform e opn s) = Threw QuotaExceededError)
           = (trace (snd (perform e opn s)) \<noteq> trace s)
       \<and> (trace (snd (perform e opn s)) = trace s
          \<or> trace (snd (perform e opn s)) =
              trace s @ [SetItem STORAGE_KEY
                          (JSON_stringify (tasks_json (tasks (snd (perform e opn s)))))])"
proof (cases opn)
  case (Add newText)
  then show ?thesis using assms
    by (simp add: addTask_def save_render_announce_eq Let_def)
next
  case (Edit i newText)
  then show ?thesis using assms
    by (simp add: editTask_def save_render_announce_eq split: option.split)
next
  case (Delete i)
  then show ?thesis using assms
    by (simp add: deleteTask_def save_render_announce_eq split: option.split)
next
  case (Toggle i)
  then show ?thesis using assms
    by (simp add: toggleComplete_def save_render_announce_eq split: option.split)
next
  case ClearCompleted
  then show ?thesis using assms
    by (simp add: clearCompleted_def save_render_announce_eq Let_def)
next
  case (Drop draggedId targetId)
  then show ?thesis using assms
    by (simp add: onDrop_def save_render_announce_eq split: option.split)
qed

theorem write_failure_keeps_collection_witness:
  "setItem_throws full_env
   \<and> tasks (snd (perform full_env (Delete ''A'') abc_state)) = [task_B, task_C]
   \<and> tasks (snd (perform quiet_env (Delete ''A'') abc_state)) = [task_B, task_C]"
proof -
  have f: "setItem_throws full_env" by (simp add: scenario_defs)
  have q: "full_env\<lparr>setItem_throws := False\<rparr> = quiet_env" by (simp add: scenario_defs)
  show ?thesis
    using f write_failure_keeps_collection [OF f, of "Delete ''A''" abc_state]
    by (simp add: q deleteTask_def save_render_announce_eq splice_remove_def scenario_defs)
qed

text \<open>
  C7 as stated fails: deleting A while the store is full ends with the exception,
  uncaught, and the only platform call made is the \<open>setItem\<close> that threw. Nothing is
  logged, and the list on the page is not rendered again.
\<close>

theorem write_failure_not_logged_counterexample:
  "fst (deleteTask full_env ''A'' abc_state) = Threw QuotaExceededError
   \<and> trace (snd (deleteTask full_env ''A'' abc_state)) =
       [SetItem STORAGE_KEY (JSON_stringify (tasks_json [task_B, task_C]))]
   \<and> tasks (snd (deleteTask full_env ''A'' abc_state)) = [task_B, task_C]"
  by (simp add: deleteTask_def save_render_announce_eq splice_remove_def scenario_defs)

end
